theory Spec2Isabelle
  imports Main "HOL-Library.Word"
begin

section \<open>Distributed token bucket: an embedding of pkg/dtb/dtb.go\<close>

text \<open>
  The package is a client of a Redis server and of the Go runtime (clock, sleep, ticker,
  an unbuffered channel). The embedding makes both explicit. What the program asks of
  them is recorded as a list of events, in program order; what they answer is an input:
  a record of replies, one per store command that one loop iteration or one call can
  issue, together with the clock value that iteration reads. Nothing is assumed about
  the replies, so a theorem holds for every behaviour of the store, including the
  interference of other processes between two commands.
\<close>

subsection \<open>Time\<close>

text \<open>
  \<^verbatim>\<open>time.Duration\<close> is an int64 count of nanoseconds; the source multiplies it, so it is a
  64-bit word, read as signed. A \<^verbatim>\<open>time.Time\<close> is an integer number of nanoseconds since the
  Unix epoch; Unix timestamps are whole seconds.

  \<^verbatim>\<open>time.Unix(s, 0)\<close> takes an int64 and keeps the seconds since year 1,
  \<open>s + unixToInternal\<close>, in an int64 again: the sum wraps, and a value of \<open>s\<close> from
  \<open>2^63 - unixToInternal\<close> on stands for an instant far in the past. \<open>unix_time s\<close> is
  the instant that \<^verbatim>\<open>time.Unix(s, 0)\<close> stands for, which is what \<^verbatim>\<open>Before\<close> and
  \<^verbatim>\<open>After\<close> compare.
\<close>

type_synonym duration = "64 word"
type_synonym time = int

definition Second :: int where
  "Second = 1000000000"

definition time_Add :: "time \<Rightarrow> duration \<Rightarrow> time" where
  "time_Add t d = t + sint d"

definition time_Unix :: "time \<Rightarrow> int" where
  "time_Unix t = t div Second"

definition unixToInternal :: "64 word" where
  "unixToInternal = 62135596800"

definition unix_time :: "64 word \<Rightarrow> time" where
  "unix_time s = (sint (s + unixToInternal) - sint unixToInternal) * Second"

definition time_Before :: "time \<Rightarrow> time \<Rightarrow> bool" where
  "time_Before t u = (t < u)"

definition time_After :: "time \<Rightarrow> time \<Rightarrow> bool" where
  "time_After t u = (t > u)"

subsection \<open>Errors, store replies, events\<close>

datatype error = Error string

text \<open>
  The result of a \<^verbatim>\<open>*redis.StringCmd\<close>: the command failed (\<^verbatim>\<open>Err()\<close> is not nil), or
  it returned a string that \<^verbatim>\<open>Int64()\<close> cannot parse, or it returned an int64.
\<close>

datatype string_cmd = CmdError error | NotInt64 error | Int64Val "64 word"

fun Err :: "string_cmd \<Rightarrow> error option" where
  "Err (CmdError e) = Some e"
| "Err (NotInt64 e) = None"
| "Err (Int64Val i) = None"

fun Int64 :: "string_cmd \<Rightarrow> error + 64 word" where
  "Int64 (CmdError e) = Inl e"
| "Int64 (NotInt64 e) = Inl e"
| "Int64 (Int64Val i) = Inr i"

text \<open>
  What the program does to the outside, in program order. The third argument of
  \<open>SetNX\<close> and \<open>Set\<close> is the expiration passed to Redis (always 0: none); the first
  argument of \<open>BRPop\<close> is its timeout (0: wait without limit). \<open>LPush\<close> pushes the one
  value \<^verbatim>\<open>nil\<close>. \<open>Post\<close> is the send on the \<^verbatim>\<open>errors\<close> channel.
\<close>

datatype event =
    Sleep duration
  | Tick duration
  | AwaitTick
  | SetNX string int duration
  | Get string
  | GetSet string int
  | Set string int duration
  | LLen string
  | LPush string
  | BRPop duration string
  | Post error

text \<open>
  The answers of the clock and of the store during one iteration of a loop of
  \<^verbatim>\<open>fill\<close>. A reply is read only if the program issues its command.
\<close>

record replies =
  now :: time
  setnx :: "error + bool"
  get :: string_cmd
  getset :: string_cmd
  llen :: "error + int"
  lpush :: "error + int"
  set_status :: "error + string"

subsection \<open>The bucket handle\<close>

text \<open>
  The struct \<^verbatim>\<open>DTB\<close>. The Redis client \<^verbatim>\<open>rc\<close> is the outside (events and replies).
  The channel \<^verbatim>\<open>errors\<close> is unbuffered: it holds a value exactly while the sender is
  blocked in its send, which is \<open>Some\<close> here.
\<close>

record DTB =
  bucketName :: string
  capacity :: int
  cadence :: duration
  errors :: "error option"

definition lockKey :: "DTB \<Rightarrow> string" where
  "lockKey dtb = bucketName dtb @ ''_lock''"

definition lockDuration :: "DTB \<Rightarrow> duration" where
  "lockDuration dtb = 2 * cadence dtb"

subsection \<open>acquireLock\<close>

text \<open>
  The Go result \<^verbatim>\<open>(*int64, error)\<close> is \<open>Inl err\<close> for \<^verbatim>\<open>(nil, err)\<close>, \<open>Inr None\<close> for
  \<^verbatim>\<open>(nil, nil)\<close> and \<open>Inr (Some lockVal)\<close> for \<^verbatim>\<open>(&lockVal, nil)\<close>. The second component
  lists the commands sent.
\<close>

definition acquireLock :: "DTB \<Rightarrow> replies \<Rightarrow> (error + int option) \<times> event list" where
  "acquireLock dtb w =
     (let lockVal = time_Unix (time_Add (now w) (lockDuration dtb));
          key = lockKey dtb
      in case setnx w of
           Inl e \<Rightarrow> (Inl e, [SetNX key lockVal 0])
         | Inr True \<Rightarrow> (Inr (Some lockVal), [SetNX key lockVal 0])
         | Inr False \<Rightarrow>
            (case Int64 (get w) of
               Inl e \<Rightarrow> (Inl e, [SetNX key lockVal 0, Get key])
             | Inr lockUnix \<Rightarrow>
                 if time_Before (unix_time lockUnix) (now w) then
                   (case Err (getset w) of
                      Some e \<Rightarrow> (Inl e, [SetNX key lockVal 0, Get key, GetSet key lockVal])
                    | None \<Rightarrow>
                       (case Int64 (getset w) of
                          Inl e \<Rightarrow> (Inl e, [SetNX key lockVal 0, Get key, GetSet key lockVal])
                        | Inr i \<Rightarrow>
                            if time_After (unix_time i) (now w)
                            then (Inr None, [SetNX key lockVal 0, Get key, GetSet key lockVal])
                            else (Inr (Some lockVal),
                                  [SetNX key lockVal 0, Get key, GetSet key lockVal])))
                 else (Inr None, [SetNX key lockVal 0, Get key])))"

subsection \<open>fill\<close>

text \<open>
  Where the goroutine running \<^verbatim>\<open>fill\<close> stands: in its first loop, in its second loop
  (holding the \<^verbatim>\<open>lockID\<close> it was given), or at its end: blocked in the send of an error,
  or returned after the send was received.
\<close>

datatype fill_pc = Acquiring | Active int | Stopped

text \<open>One iteration of the first loop (\<^verbatim>\<open>for lockID == nil\<close>).\<close>

definition fill_acquire :: "DTB \<Rightarrow> replies \<Rightarrow> (DTB \<times> fill_pc) \<times> event list" where
  "fill_acquire dtb w =
     (case acquireLock dtb w of
        (Inl err, cmds) \<Rightarrow>
          ((dtb\<lparr>errors := Some err\<rparr>, Stopped), Sleep (cadence dtb) # cmds @ [Post err])
      | (Inr None, cmds) \<Rightarrow>
          ((dtb, Acquiring), Sleep (cadence dtb) # cmds)
      | (Inr (Some lockID), cmds) \<Rightarrow>
          ((dtb, Active lockID), Sleep (cadence dtb) # cmds @ [Tick (cadence dtb)]))"

text \<open>
  One iteration of the second loop (\<^verbatim>\<open>for c := time.Tick(dtb.cadence); ; <-c\<close>): the
  body, then the wait for the next tick. The result of \<^verbatim>\<open>Set\<close> is not looked at.
\<close>

definition fill_tick :: "DTB \<Rightarrow> int \<Rightarrow> replies \<Rightarrow> (DTB \<times> fill_pc) \<times> event list" where
  "fill_tick dtb lockID w =
     (case llen w of
        Inl e \<Rightarrow> ((dtb\<lparr>errors := Some e\<rparr>, Stopped), [LLen (bucketName dtb), Post e])
      | Inr tokensInBucket \<Rightarrow>
          if tokensInBucket < capacity dtb then
            (case lpush w of
               Inl e \<Rightarrow>
                 ((dtb\<lparr>errors := Some e\<rparr>, Stopped),
                  [LLen (bucketName dtb), LPush (bucketName dtb), Post e])
             | Inr n \<Rightarrow>
                 ((dtb, Active lockID),
                  [LLen (bucketName dtb), LPush (bucketName dtb),
                   Set (lockKey dtb) (time_Unix (time_Add (now w) (lockDuration dtb))) 0,
                   AwaitTick]))
          else
            ((dtb, Active lockID),
             [LLen (bucketName dtb),
              Set (lockKey dtb) (time_Unix (time_Add (now w) (lockDuration dtb))) 0,
              AwaitTick]))"

text \<open>
  \<^verbatim>\<open>fill\<close> has no normal end: it runs until an error stops it. Its course is the
  sequence of its iterations, each with the replies it reads. This is one iteration,
  wherever the goroutine stands; a stopped goroutine does nothing.
\<close>

definition fill :: "DTB \<times> fill_pc \<Rightarrow> replies \<Rightarrow> (DTB \<times> fill_pc) \<times> event list" where
  "fill s w =
     (case snd s of
        Acquiring \<Rightarrow> fill_acquire (fst s) w
      | Active lockID \<Rightarrow> fill_tick (fst s) lockID w
      | Stopped \<Rightarrow> (s, []))"

subsection \<open>GetToken\<close>

text \<open>
  The reply to \<^verbatim>\<open>BRPop(0, name)\<close> is \<open>None\<close> when the command never answers (no token
  is ever pushed): then the call does not return.
\<close>

datatype outcome = Blocked | Returned "error option"

definition GetToken :: "DTB \<Rightarrow> (error + string list) option \<Rightarrow> (outcome \<times> DTB) \<times> event list" where
  "GetToken dtb popped =
     (case errors dtb of
        Some msg \<Rightarrow> ((Returned (Some msg), dtb\<lparr>errors := None\<rparr>), [])
      | None \<Rightarrow>
         (case popped of
            None \<Rightarrow> ((Blocked, dtb), [BRPop 0 (bucketName dtb)])
          | Some r \<Rightarrow> ((Returned None, dtb), [BRPop 0 (bucketName dtb)])))"

subsection \<open>A process: one handle, its filler, and the callers of GetToken\<close>

text \<open>
  \<^verbatim>\<open>NewDTB\<close> makes the handle with an empty channel and starts \<^verbatim>\<open>fill\<close>. From then on
  the process moves by iterations of \<^verbatim>\<open>fill\<close> and by calls of \<^verbatim>\<open>GetToken\<close>, in any
  order; the two meet only at the channel.
\<close>

definition NewDTB :: "string \<Rightarrow> int \<Rightarrow> duration \<Rightarrow> DTB \<times> fill_pc" where
  "NewDTB name cap cad =
     (\<lparr>bucketName = name, capacity = cap, cadence = cad, errors = None\<rparr>, Acquiring)"

datatype action = Iterate replies | Call "(error + string list) option"

datatype observation = Did event | Got outcome

fun step :: "DTB \<times> fill_pc \<Rightarrow> action \<Rightarrow> (DTB \<times> fill_pc) \<times> observation list" where
  "step s (Iterate w) = (case fill s w of (s', evs) \<Rightarrow> (s', map Did evs))"
| "step s (Call popped) =
     (case GetToken (fst s) popped of
        ((res, dtb'), evs) \<Rightarrow> ((dtb', snd s), map Did evs @ [Got res]))"

fun run :: "DTB \<times> fill_pc \<Rightarrow> action list \<Rightarrow> (DTB \<times> fill_pc) \<times> observation list" where
  "run s [] = (s, [])"
| "run s (a # as) =
     (case step s a of
        (s', obs) \<Rightarrow> (case run s' as of (s'', obs') \<Rightarrow> (s'', obs @ obs')))"

subsection \<open>Reading a list of events\<close>

text \<open>
  The commands on the lock key are SetNX, Get, GetSet and Set; of these SetNX, GetSet
  and Set carry a value to store. The token queue is reached by LLen, LPush and BRPop.
\<close>

fun lease_key :: "event \<Rightarrow> string option" where
  "lease_key (SetNX k v x) = Some k"
| "lease_key (Get k) = Some k"
| "lease_key (GetSet k v) = Some k"
| "lease_key (Set k v x) = Some k"
| "lease_key ev = None"

fun lease_write :: "event \<Rightarrow> int option" where
  "lease_write (SetNX k v x) = Some v"
| "lease_write (GetSet k v) = Some v"
| "lease_write (Set k v x) = Some v"
| "lease_write ev = None"

fun is_push :: "event \<Rightarrow> bool" where
  "is_push (LPush k) = True"
| "is_push ev = False"

fun is_post :: "observation \<Rightarrow> bool" where
  "is_post (Did (Post e)) = True"
| "is_post ob = False"

fun is_fault :: "observation \<Rightarrow> bool" where
  "is_fault (Got (Returned (Some e))) = True"
| "is_fault ob = False"

text \<open>
  How many errors the filler has sent, how many calls of GetToken have returned one,
  and whether one waits in the channel.
\<close>

definition posted :: "observation list \<Rightarrow> nat" where
  "posted obs = length (filter is_post obs)"

definition observed :: "observation list \<Rightarrow> nat" where
  "observed obs = length (filter is_fault obs)"

definition pending :: "DTB \<Rightarrow> nat" where
  "pending dtb = (case errors dtb of None \<Rightarrow> 0 | Some e \<Rightarrow> 1)"

text \<open>
  The configuration of a handle, and the one tie between the channel and the filler:
  an error waits in the channel only when the filler has stopped.
\<close>

definition config :: "DTB \<Rightarrow> string \<times> int \<times> duration" where
  "config dtb = (bucketName dtb, capacity dtb, cadence dtb)"

definition sound :: "DTB \<times> fill_pc \<Rightarrow> bool" where
  "sound s = (errors (fst s) \<noteq> None \<longrightarrow> snd s = Stopped)"

section \<open>The lease: acquireLock\<close>

subsection \<open>The branches after a refused SetNX\<close>

text \<open>
  In the terms of the code, for every reply: the tests are those of \<^verbatim>\<open>Before\<close> and
  \<^verbatim>\<open>After\<close> on the instants that \<^verbatim>\<open>time.Unix\<close> makes of the values read.
\<close>

lemma acquireLock_branches:
  assumes "setnx w = Inr False" and "get w = Int64Val v"
  shows "(time_After (unix_time v) (now w) \<longrightarrow>
            acquireLock dtb w =
              (Inr None,
               [SetNX (lockKey dtb) (time_Unix (time_Add (now w) (lockDuration dtb))) 0,
                Get (lockKey dtb)]))
       \<and> (time_Before (unix_time v) (now w) \<longrightarrow>
            snd (acquireLock dtb w) =
              [SetNX (lockKey dtb) (time_Unix (time_Add (now w) (lockDuration dtb))) 0,
               Get (lockKey dtb),
               GetSet (lockKey dtb) (time_Unix (time_Add (now w) (lockDuration dtb)))]
          \<and> (\<forall>p. getset w = Int64Val p \<longrightarrow>
                 (fst (acquireLock dtb w) =
                    Inr (Some (time_Unix (time_Add (now w) (lockDuration dtb))))
                  \<longleftrightarrow> unix_time p \<le> now w)
               \<and> (time_After (unix_time p) (now w) \<longrightarrow> fst (acquireLock dtb w) = Inr None)))"
  using assms
  by (auto simp: acquireLock_def Let_def time_After_def time_Before_def
           split: option.splits sum.splits string_cmd.splits)

text \<open>
  Below \<open>2^63 - unixToInternal\<close> the sum does not wrap, and the instant is the value
  in seconds.
\<close>

lemma unix_time_in_range:
  assumes "sint s < 2 ^ 63 - 62135596800"
  shows "unix_time s = sint s * Second"
proof -
  have k: "sint unixToInternal = 62135596800"
    by (simp add: unixToInternal_def)
  have lo: "- (2 ^ 63) \<le> sint s"
    using sint_ge [of s] by simp
  have "sint (s + unixToInternal) = signed_take_bit 63 (sint s + sint unixToInternal)"
    by (simp add: sint_word_ariths)
  also have "\<dots> = sint s + sint unixToInternal"
    using assms lo k by (simp add: signed_take_bit_int_eq_self_iff)
  finally show ?thesis
    by (simp add: unix_time_def)
qed

text \<open>
  C1, as stated, fails where \<^verbatim>\<open>time.Unix\<close> wraps. The README bucket at 1000.5 s,
  the lock key holding the largest int64, a lease value far in the future: acquireLock
  does not return not-owner. It takes the value for expired, sends the GetSet, and,
  the swap returning the expired 900, returns owner.
\<close>

theorem acquireLock_wrapped_counterexample:
  "acquireLock (fst (NewDTB ''my-token-bucket'' 1000 1000000000))
     \<lparr>now = 1000500000000, setnx = Inr False, get = Int64Val 9223372036854775807,
      getset = Int64Val 900, llen = Inr 0, lpush = Inr 1, set_status = Inr ''OK''\<rparr>
     = (Inr (Some 1002),
        [SetNX ''my-token-bucket_lock'' 1002 0, Get ''my-token-bucket_lock'',
         GetSet ''my-token-bucket_lock'' 1002])
   \<and> 1000500000000 < sint (9223372036854775807 :: 64 word) * Second"
  by (simp add: acquireLock_def Let_def NewDTB_def lockKey_def lockDuration_def
        time_Unix_def time_Add_def time_Before_def time_After_def unix_time_def
        unixToInternal_def Second_def)

text \<open>
  C1, amended. For stored values below \<open>2^63 - 62135596800\<close>, those that
  \<^verbatim>\<open>time.Unix\<close> takes without wrapping (every Unix time of a real clock is one): when
  the set-if-absent is answered "not set" and the read of the lock key gives \<open>v\<close>, then
  if \<open>v\<close> is in the future acquireLock returns not-owner with no error, having sent
  only the SetNX and the Get. If \<open>v\<close> has passed, it sends the GetSet that writes the
  candidate value, whatever is answered; and when the GetSet answers such a previous
  value \<open>p\<close>, the caller is owner, with the candidate value (the Unix time of \<open>now\<close>
  plus twice the cadence), exactly when \<open>p\<close> is not after \<open>now\<close>, and not-owner
  with no error when \<open>p\<close> is after \<open>now\<close>.
\<close>

theorem acquireLock_takeover:
  assumes "setnx w = Inr False" and "get w = Int64Val v"
    and "sint v < 2 ^ 63 - 62135596800"
  shows "(now w < sint v * Second \<longrightarrow>
            acquireLock dtb w =
              (Inr None,
               [SetNX (lockKey dtb) (time_Unix (time_Add (now w) (lockDuration dtb))) 0,
                Get (lockKey dtb)]))
       \<and> (sint v * Second < now w \<longrightarrow>
            snd (acquireLock dtb w) =
              [SetNX (lockKey dtb) (time_Unix (time_Add (now w) (lockDuration dtb))) 0,
               Get (lockKey dtb),
               GetSet (lockKey dtb) (time_Unix (time_Add (now w) (lockDuration dtb)))]
          \<and> (\<forall>p. getset w = Int64Val p \<and> sint p < 2 ^ 63 - 62135596800 \<longrightarrow>
                 (fst (acquireLock dtb w) =
                    Inr (Some (time_Unix (time_Add (now w) (lockDuration dtb))))
                  \<longleftrightarrow> sint p * Second \<le> now w)
               \<and> (now w < sint p * Second \<longrightarrow> fst (acquireLock dtb w) = Inr None)))"
  using acquireLock_branches [OF assms(1,2), of dtb] unix_time_in_range [OF assms(3)]
    unix_time_in_range
  by (simp add: time_After_def time_Before_def)

text \<open>
  The bucket of the README (one token a second) at 1000.5 s, the lock key holding 900:
  a swap that returns 900 makes the caller owner until 1002; a swap that returns 1001,
  written by another process in between, does not.
\<close>

theorem acquireLock_takeover_witness:
  "sint (900 :: 64 word) < 2 ^ 63 - 62135596800
   \<and> sint (1001 :: 64 word) < 2 ^ 63 - 62135596800
   \<and> sint (900 :: 64 word) * Second < 1000500000000
   \<and> fst (acquireLock (fst (NewDTB ''my-token-bucket'' 1000 1000000000))
            \<lparr>now = 1000500000000, setnx = Inr False, get = Int64Val 900,
             getset = Int64Val 900, llen = Inr 0, lpush = Inr 1,
             set_status = Inr ''OK''\<rparr>) = Inr (Some 1002)
   \<and> 1000500000000 < sint (1001 :: 64 word) * Second
   \<and> fst (acquireLock (fst (NewDTB ''my-token-bucket'' 1000 1000000000))
            \<lparr>now = 1000500000000, setnx = Inr False, get = Int64Val 900,
             getset = Int64Val 1001, llen = Inr 0, lpush = Inr 1,
             set_status = Inr ''OK''\<rparr>) = Inr None"
  using
    acquireLock_takeover
      [of "\<lparr>now = 1000500000000, setnx = Inr False, get = Int64Val 900,
             getset = Int64Val 900, llen = Inr 0, lpush = Inr 1,
             set_status = Inr ''OK''\<rparr>"
          900 "fst (NewDTB ''my-token-bucket'' 1000 1000000000)"]
    acquireLock_takeover
      [of "\<lparr>now = 1000500000000, setnx = Inr False, get = Int64Val 900,
             getset = Int64Val 1001, llen = Inr 0, lpush = Inr 1,
             set_status = Inr ''OK''\<rparr>"
          900 "fst (NewDTB ''my-token-bucket'' 1000 1000000000)"]
  by (simp add: Second_def time_Unix_def time_Add_def lockDuration_def NewDTB_def)

subsection \<open>What is written to the lock key\<close>

lemma acquireLock_events:
  assumes "ev \<in> set (snd (acquireLock dtb w))"
  shows "(\<forall>k. lease_key ev = Some k \<longrightarrow> k = lockKey dtb)
       \<and> (\<forall>v. lease_write ev = Some v \<longrightarrow>
              v = time_Unix (time_Add (now w) (lockDuration dtb)))"
  using assms
  by (auto simp: acquireLock_def Let_def
           split: sum.splits bool.splits option.splits if_splits)

lemma fill_tick_events:
  assumes "ev \<in> set (snd (fill_tick dtb lockID w))"
  shows "(\<forall>k. lease_key ev = Some k \<longrightarrow> k = lockKey dtb)
       \<and> (\<forall>v. lease_write ev = Some v \<longrightarrow>
              v = time_Unix (time_Add (now w) (lockDuration dtb)))"
  using assms
  by (auto simp: fill_tick_def split: sum.splits if_splits)

text \<open>Doubling an int64 does not wrap while the result fits.\<close>

lemma sint_double:
  fixes c :: "64 word"
  assumes "- (2 ^ 62) \<le> sint c" and "sint c < 2 ^ 62"
  shows "sint (2 * c) = 2 * sint c"
proof -
  have "sint (2 * c) = signed_take_bit 63 (2 * sint c)"
    by (simp add: sint_word_ariths signed_take_bit_mult)
  also have "\<dots> = 2 * sint c"
    using assms by (simp add: signed_take_bit_int_eq_self_iff)
  finally show ?thesis .
qed

text \<open>A Unix timestamp is its instant rounded down to the second.\<close>

lemma unix_floor:
  "time_Unix t * Second \<le> t \<and> t < time_Unix t * Second + Second"
proof -
  have "0 < Second" by (simp add: Second_def)
  then have "t div Second * Second \<le> t" and "t < t div Second * Second + Second"
    using div_mult_mod_eq [of t Second] pos_mod_bound [of Second t] pos_mod_sign [of Second t]
    by linarith+
  then show ?thesis by (simp add: time_Unix_def)
qed

text \<open>
  What acquireLock (the candidate, in SetNX and GetSet) and a tick of the filler (the
  renewal, in Set) write is the Unix time in whole seconds of \<open>now\<close> plus twice the
  cadence, rounded down, for a cadence whose double fits the int64 nanoseconds of a
  duration.
\<close>

lemma lease_write_floor:
  assumes "- (2 ^ 62) \<le> sint (cadence dtb)" and "sint (cadence dtb) < 2 ^ 62"
    and "ev \<in> set (snd (acquireLock dtb w)) \<union> set (snd (fill_tick dtb lockID w))"
    and "lease_write ev = Some v"
  shows "v = (now w + 2 * sint (cadence dtb)) div Second"
proof -
  have "v = time_Unix (time_Add (now w) (lockDuration dtb))"
    using assms(3,4) acquireLock_events [of ev dtb w] fill_tick_events [of ev dtb lockID w]
    by auto
  moreover have "time_Add (now w) (lockDuration dtb) = now w + 2 * sint (cadence dtb)"
    using sint_double [OF assms(1,2)] by (simp add: time_Add_def lockDuration_def)
  ultimately show ?thesis
    by (simp add: time_Unix_def)
qed

text \<open>
  C3 does not hold of the code: the fraction of a second of \<open>now\<close> plus twice the
  cadence is dropped from what is written. A bucket of capacity 3 and cadence 100 ms at
  1000.5 s: \<open>now\<close> plus twice the cadence is 1000.7 s, and both acquireLock and the
  renewal of a tick write 1000. The value is below the bound of the claim and has
  passed when it is written: another process that calls acquireLock at that instant
  and reads the 1000 takes the lock over while its owner is in its second loop.
\<close>

theorem lease_written_already_expired:
  "acquireLock (fst (NewDTB ''bucket'' 3 100000000))
     \<lparr>now = 1000500000000, setnx = Inr True, get = Int64Val 0, getset = Int64Val 0,
      llen = Inr 0, lpush = Inr 1, set_status = Inr ''OK''\<rparr>
     = (Inr (Some 1000), [SetNX ''bucket_lock'' 1000 0])
   \<and> fill_tick (fst (NewDTB ''bucket'' 3 100000000)) 1000
     \<lparr>now = 1000500000000, setnx = Inr True, get = Int64Val 0, getset = Int64Val 0,
      llen = Inr 3, lpush = Inr 4, set_status = Inr ''OK''\<rparr>
     = ((fst (NewDTB ''bucket'' 3 100000000), Active 1000),
        [LLen ''bucket'', Set ''bucket_lock'' 1000 0, AwaitTick])
   \<and> 1000 * Second < 1000500000000 + 2 * sint (100000000 :: duration)
   \<and> time_Before (unix_time 1000) 1000500000000
   \<and> acquireLock (fst (NewDTB ''bucket'' 3 100000000))
     \<lparr>now = 1000500000000, setnx = Inr False, get = Int64Val 1000,
      getset = Int64Val 1000, llen = Inr 0, lpush = Inr 1, set_status = Inr ''OK''\<rparr>
     = (Inr (Some 1000),
        [SetNX ''bucket_lock'' 1000 0, Get ''bucket_lock'', GetSet ''bucket_lock'' 1000])"
  by (simp add: acquireLock_def Let_def fill_tick_def NewDTB_def lockKey_def
        lockDuration_def time_Unix_def time_Add_def time_Before_def time_After_def
        unix_time_def unixToInternal_def Second_def)

text \<open>
  The bucket of the README, cadence one second, at 1000.5 s: the value written is 1002,
  half a second short of \<open>now\<close> plus twice the cadence.
\<close>

lemma lease_written_README_bucket:
  "acquireLock (fst (NewDTB ''my-token-bucket'' 1000 1000000000))
     \<lparr>now = 1000500000000, setnx = Inr True, get = Int64Val 0, getset = Int64Val 0,
      llen = Inr 0, lpush = Inr 1, set_status = Inr ''OK''\<rparr>
     = (Inr (Some 1002), [SetNX ''my-token-bucket_lock'' 1002 0])
   \<and> 1002 * Second < 1000500000000 + 2 * sint (1000000000 :: duration)"
  by (simp add: acquireLock_def NewDTB_def lockKey_def lockDuration_def
        time_Unix_def time_Add_def Second_def)

text \<open>
  C8. The lease duration is twice the cadence, in the int64 arithmetic of a duration,
  hence twice its nanoseconds whenever those fit; the lock key is the bucket name
  followed by \<open>_lock\<close>. Acquisition and renewal use both: every command that acquireLock
  or a tick of the filler sends to the lock key names that key, and every value they
  write is the Unix time of \<open>now\<close> plus that duration.
\<close>

theorem lease_duration_and_key:
  "lockDuration dtb = 2 * cadence dtb
   \<and> (- (2 ^ 62) \<le> sint (cadence dtb) \<and> sint (cadence dtb) < 2 ^ 62 \<longrightarrow>
        sint (lockDuration dtb) = 2 * sint (cadence dtb))
   \<and> lockKey dtb = bucketName dtb @ ''_lock''
   \<and> (\<forall>ev \<in> set (snd (acquireLock dtb w)) \<union> set (snd (fill_tick dtb lockID w)).
        (\<forall>k. lease_key ev = Some k \<longrightarrow> k = bucketName dtb @ ''_lock'')
      \<and> (\<forall>v. lease_write ev = Some v \<longrightarrow>
             v = time_Unix (time_Add (now w) (2 * cadence dtb))))"
proof -
  have "\<forall>ev \<in> set (snd (acquireLock dtb w)) \<union> set (snd (fill_tick dtb lockID w)).
        (\<forall>k. lease_key ev = Some k \<longrightarrow> k = lockKey dtb)
      \<and> (\<forall>v. lease_write ev = Some v \<longrightarrow>
             v = time_Unix (time_Add (now w) (lockDuration dtb)))"
    using acquireLock_events [of _ dtb w] fill_tick_events [of _ dtb lockID w]
    by blast
  then show ?thesis
    using sint_double [of "cadence dtb"] by (simp add: lockDuration_def lockKey_def)
qed

theorem lease_duration_and_key_witness:
  "lockDuration (fst (NewDTB ''my-token-bucket'' 1000 1000000000)) = 2000000000
   \<and> sint (lockDuration (fst (NewDTB ''my-token-bucket'' 1000 1000000000))) = 2000000000
   \<and> lockKey (fst (NewDTB ''my-token-bucket'' 1000 1000000000)) = ''my-token-bucket_lock''
   \<and> snd (fill_tick (fst (NewDTB ''my-token-bucket'' 1000 1000000000)) 1002
       \<lparr>now = 1001000000000, setnx = Inr True, get = Int64Val 0, getset = Int64Val 0,
        llen = Inr 1000, lpush = Inr 1, set_status = Inr ''OK''\<rparr>)
     = [LLen ''my-token-bucket'', Set ''my-token-bucket_lock'' 1003 0, AwaitTick]"
  using lease_duration_and_key
    [of "fst (NewDTB ''my-token-bucket'' 1000 1000000000)"
       "\<lparr>now = 1001000000000, setnx = Inr True, get = Int64Val 0, getset = Int64Val 0,
        llen = Inr 1000, lpush = Inr 1, set_status = Inr ''OK''\<rparr>" 1002]
  by (simp add: fill_tick_def NewDTB_def lockKey_def lockDuration_def
        time_Unix_def time_Add_def Second_def)

section \<open>The filler\<close>

subsection \<open>A stopped filler stays stopped\<close>

lemma step_Stopped:
  assumes "snd s = Stopped"
  shows "snd (fst (step s a)) = Stopped"
  using assms
  by (cases a) (auto simp: fill_def GetToken_def split: option.splits prod.splits)

lemma run_Stopped:
  assumes "snd s = Stopped"
  shows "snd (fst (run s acts)) = Stopped"
  using assms
proof (induction acts arbitrary: s)
  case Nil
  then show ?case by simp
next
  case (Cons a acts)
  obtain s1 obs1 where 1: "step s a = (s1, obs1)"
    by (cases "step s a")
  then have "snd s1 = Stopped"
    using step_Stopped [OF Cons.prems, of a] by simp
  then have "snd (fst (run s1 acts)) = Stopped"
    by (rule Cons.IH)
  then show ?case
    using 1 by (cases "run s1 acts") simp
qed

subsection \<open>The first loop\<close>

text \<open>
  C7. An iteration of the first loop sleeps one cadence and then calls acquireLock.
  When acquireLock answers not-owner without error, the filler is where it was and the
  next iteration is again one of the first loop. When it answers an error, the error
  is sent on the channel as the last thing the filler does: it is stopped, and no
  later step of the process makes it Active. It is Active after the iteration exactly
  when acquireLock answered owner.
\<close>

theorem fill_acquiring:
  "take (Suc (length (snd (acquireLock dtb w)))) (snd (fill (dtb, Acquiring) w))
     = Sleep (cadence dtb) # snd (acquireLock dtb w)
   \<and> (fst (acquireLock dtb w) = Inr None \<longrightarrow>
        fill (dtb, Acquiring) w
          = ((dtb, Acquiring), Sleep (cadence dtb) # snd (acquireLock dtb w)))
   \<and> (\<forall>e. fst (acquireLock dtb w) = Inl e \<longrightarrow>
        fill (dtb, Acquiring) w
          = ((dtb\<lparr>errors := Some e\<rparr>, Stopped),
             Sleep (cadence dtb) # snd (acquireLock dtb w) @ [Post e])
        \<and> (\<forall>acts. snd (fst (run (fst (fill (dtb, Acquiring) w)) acts)) = Stopped))
   \<and> ((\<exists>lockID. snd (fst (fill (dtb, Acquiring) w)) = Active lockID)
        \<longleftrightarrow> (\<exists>lockID. fst (acquireLock dtb w) = Inr (Some lockID)))"
proof -
  have "\<forall>acts. snd (fst (run (dtb\<lparr>errors := Some e\<rparr>, Stopped) acts)) = Stopped" for e
    using run_Stopped [of "(dtb\<lparr>errors := Some e\<rparr>, Stopped)"] by simp
  then show ?thesis
    by (cases "acquireLock dtb w")
       (auto simp: fill_def fill_acquire_def split: sum.splits option.splits)
qed

text \<open>
  The README bucket while another process holds the lock until 1005: the iteration
  sleeps, asks, and stays in the first loop. When the store cannot be reached, the
  error is sent and the filler has stopped.
\<close>

theorem fill_acquiring_witness:
  "fill (fst (NewDTB ''my-token-bucket'' 1000 1000000000), Acquiring)
     \<lparr>now = 1000500000000, setnx = Inr False, get = Int64Val 1005, getset = Int64Val 0,
      llen = Inr 0, lpush = Inr 1, set_status = Inr ''OK''\<rparr>
     = ((fst (NewDTB ''my-token-bucket'' 1000 1000000000), Acquiring),
        [Sleep 1000000000, SetNX ''my-token-bucket_lock'' 1002 0,
         Get ''my-token-bucket_lock''])
   \<and> fill (fst (NewDTB ''my-token-bucket'' 1000 1000000000), Acquiring)
     \<lparr>now = 1000500000000, setnx = Inl (Error ''dial tcp: connection refused''),
      get = Int64Val 0, getset = Int64Val 0,
      llen = Inr 0, lpush = Inr 1, set_status = Inr ''OK''\<rparr>
     = ((fst (NewDTB ''my-token-bucket'' 1000 1000000000)
           \<lparr>errors := Some (Error ''dial tcp: connection refused'')\<rparr>, Stopped),
        [Sleep 1000000000, SetNX ''my-token-bucket_lock'' 1002 0,
         Post (Error ''dial tcp: connection refused'')])"
  using
    fill_acquiring
      [of "fst (NewDTB ''my-token-bucket'' 1000 1000000000)"
          "\<lparr>now = 1000500000000, setnx = Inr False, get = Int64Val 1005,
            getset = Int64Val 0, llen = Inr 0, lpush = Inr 1, set_status = Inr ''OK''\<rparr>"]
    fill_acquiring
      [of "fst (NewDTB ''my-token-bucket'' 1000 1000000000)"
          "\<lparr>now = 1000500000000, setnx = Inl (Error ''dial tcp: connection refused''),
            get = Int64Val 0, getset = Int64Val 0,
            llen = Inr 0, lpush = Inr 1, set_status = Inr ''OK''\<rparr>"]
  by (simp add: fill_def fill_acquire_def acquireLock_def Let_def NewDTB_def lockKey_def
        lockDuration_def time_Unix_def time_Add_def time_Before_def unix_time_def
        unixToInternal_def Second_def)

subsection \<open>The second loop\<close>

text \<open>
  C2. A tick of the second loop first reads the length of the queue. It then pushes
  one placeholder when the length read is below the capacity, and none when the length
  is the capacity or more (or could not be read).
\<close>

theorem fill_tick_pushes:
  "hd (snd (fill (dtb, Active lockID) w)) = LLen (bucketName dtb)
   \<and> filter is_push (snd (fill (dtb, Active lockID) w))
       = (case llen w of
            Inl e \<Rightarrow> []
          | Inr n \<Rightarrow> if n < capacity dtb then [LPush (bucketName dtb)] else [])"
  by (simp add: fill_def fill_tick_def split: sum.splits)

text \<open>Capacity 1000: a push at length 999, none at length 1000.\<close>

theorem fill_tick_pushes_witness:
  "filter is_push (snd (fill (fst (NewDTB ''my-token-bucket'' 1000 1000000000), Active 1002)
       \<lparr>now = 1001000000000, setnx = Inr True, get = Int64Val 0, getset = Int64Val 0,
        llen = Inr 999, lpush = Inr 1000, set_status = Inr ''OK''\<rparr>))
     = [LPush ''my-token-bucket'']
   \<and> filter is_push (snd (fill (fst (NewDTB ''my-token-bucket'' 1000 1000000000), Active 1002)
       \<lparr>now = 1001000000000, setnx = Inr True, get = Int64Val 0, getset = Int64Val 0,
        llen = Inr 1000, lpush = Inr 1001, set_status = Inr ''OK''\<rparr>))
     = []"
  using
    fill_tick_pushes
      [of "fst (NewDTB ''my-token-bucket'' 1000 1000000000)" 1002
          "\<lparr>now = 1001000000000, setnx = Inr True, get = Int64Val 0, getset = Int64Val 0,
            llen = Inr 999, lpush = Inr 1000, set_status = Inr ''OK''\<rparr>"]
    fill_tick_pushes
      [of "fst (NewDTB ''my-token-bucket'' 1000 1000000000)" 1002
          "\<lparr>now = 1001000000000, setnx = Inr True, get = Int64Val 0, getset = Int64Val 0,
            llen = Inr 1000, lpush = Inr 1001, set_status = Inr ''OK''\<rparr>"]
  by (simp add: NewDTB_def)

text \<open>
  A failure of the length read, or of the push, is sent on the channel and stops the
  filler.
\<close>

lemma fill_tick_llen_error:
  assumes "llen w = Inl e"
  shows "fill (dtb, Active lockID) w
           = ((dtb\<lparr>errors := Some e\<rparr>, Stopped), [LLen (bucketName dtb), Post e])"
  using assms by (simp add: fill_def fill_tick_def)

lemma fill_tick_lpush_error:
  assumes "llen w = Inr n" and "n < capacity dtb" and "lpush w = Inl e"
  shows "fill (dtb, Active lockID) w
           = ((dtb\<lparr>errors := Some e\<rparr>, Stopped),
              [LLen (bucketName dtb), LPush (bucketName dtb), Post e])"
  using assms by (simp add: fill_def fill_tick_def)

text \<open>The answer to the renewal has no part in what a tick does.\<close>

lemma fill_tick_ignores_set_status:
  "fill (dtb, Active lockID) (w\<lparr>set_status := r\<rparr>) = fill (dtb, Active lockID) w"
  by (cases "llen w"; cases "lpush w"; simp add: fill_def fill_tick_def)

text \<open>
  C4 does not hold of the renewal. A tick of the README bucket in which the length
  read and the push succeed and the Set of the lock key fails: nothing is sent on the
  channel, the handle is as it was, and the filler is still in its second loop,
  waiting for the next tick.
\<close>

theorem fill_tick_renewal_failure_unreported:
  "fill (fst (NewDTB ''my-token-bucket'' 1000 1000000000), Active 1002)
     \<lparr>now = 1001000000000, setnx = Inr True, get = Int64Val 0, getset = Int64Val 0,
      llen = Inr 0, lpush = Inr 1,
      set_status = Inl (Error ''dial tcp: connection refused'')\<rparr>
   = ((fst (NewDTB ''my-token-bucket'' 1000 1000000000), Active 1002),
      [LLen ''my-token-bucket'', LPush ''my-token-bucket'',
       Set ''my-token-bucket_lock'' 1003 0, AwaitTick])"
  by (simp add: fill_def fill_tick_def NewDTB_def lockKey_def lockDuration_def
        time_Unix_def time_Add_def Second_def)

section \<open>GetToken\<close>

text \<open>
  C5. GetToken looks at the channel first. When an error waits there, the call takes
  it out and returns it, and sends no command to the store. Otherwise it sends one
  BRPop on the queue with timeout 0, which waits without limit (the call does not
  return while the pop is not answered), and when the pop succeeds it returns nil.
\<close>

theorem GetToken_fault_first:
  "(\<forall>e. errors dtb = Some e \<longrightarrow>
        GetToken dtb popped = ((Returned (Some e), dtb\<lparr>errors := None\<rparr>), []))
   \<and> (errors dtb = None \<longrightarrow>
        snd (GetToken dtb popped) = [BRPop 0 (bucketName dtb)]
        \<and> (popped = None \<longrightarrow> fst (GetToken dtb popped) = (Blocked, dtb))
        \<and> (\<forall>r. popped = Some (Inr r) \<longrightarrow> fst (GetToken dtb popped) = (Returned None, dtb)))"
  by (auto simp: GetToken_def split: option.splits)

theorem GetToken_fault_first_witness:
  "GetToken (fst (NewDTB ''my-token-bucket'' 1000 1000000000)
               \<lparr>errors := Some (Error ''EOF'')\<rparr>)
            (Some (Inr [''my-token-bucket'', []]))
     = ((Returned (Some (Error ''EOF'')),
         fst (NewDTB ''my-token-bucket'' 1000 1000000000)), [])
   \<and> GetToken (fst (NewDTB ''my-token-bucket'' 1000 1000000000))
            (Some (Inr [''my-token-bucket'', []]))
     = ((Returned None, fst (NewDTB ''my-token-bucket'' 1000 1000000000)),
        [BRPop 0 ''my-token-bucket''])"
  using
    GetToken_fault_first
      [of "fst (NewDTB ''my-token-bucket'' 1000 1000000000)\<lparr>errors := Some (Error ''EOF'')\<rparr>"
          "Some (Inr [''my-token-bucket'', []])"]
    GetToken_fault_first
      [of "fst (NewDTB ''my-token-bucket'' 1000 1000000000)"
          "Some (Inr [''my-token-bucket'', []])"]
  by (simp add: NewDTB_def prod_eq_iff)

text \<open>
  C10. With no error waiting in the channel, GetToken returns nil whatever the pop
  answers, a failure of the store included. An error that GetToken returns was taken
  from the channel.
\<close>

theorem GetToken_discards_pop:
  "(errors dtb = None \<longrightarrow>
      (\<forall>r. GetToken dtb (Some r) = ((Returned None, dtb), [BRPop 0 (bucketName dtb)])))
   \<and> (\<forall>e. fst (fst (GetToken dtb popped)) = Returned (Some e) \<longrightarrow> errors dtb = Some e)"
  by (auto simp: GetToken_def split: option.splits)

theorem GetToken_discards_pop_witness:
  "GetToken (fst (NewDTB ''my-token-bucket'' 1000 1000000000))
            (Some (Inl (Error ''read tcp: connection reset by peer'')))
     = ((Returned None, fst (NewDTB ''my-token-bucket'' 1000 1000000000)),
        [BRPop 0 ''my-token-bucket''])"
  using
    GetToken_discards_pop
      [of "fst (NewDTB ''my-token-bucket'' 1000 1000000000)"
          "Some (Inl (Error ''read tcp: connection reset by peer''))"]
  by (simp add: NewDTB_def)

section \<open>The process\<close>

subsection \<open>Counting errors sent and errors returned\<close>

lemma posted_Nil [simp]: "posted [] = 0"
  by (simp add: posted_def)

lemma posted_Cons [simp]: "posted (ob # obs) = (if is_post ob then 1 else 0) + posted obs"
  by (simp add: posted_def)

lemma posted_append [simp]: "posted (xs @ ys) = posted xs + posted ys"
  by (simp add: posted_def)

lemma observed_Nil [simp]: "observed [] = 0"
  by (simp add: observed_def)

lemma observed_Cons [simp]:
  "observed (ob # obs) = (if is_fault ob then 1 else 0) + observed obs"
  by (simp add: observed_def)

lemma observed_append [simp]: "observed (xs @ ys) = observed xs + observed ys"
  by (simp add: observed_def)

lemma observed_Did [simp]: "observed (map Did evs) = 0"
  by (induction evs) simp_all

lemma acquireLock_no_post: "posted (map Did (snd (acquireLock dtb w))) = 0"
  by (simp add: acquireLock_def Let_def split: sum.splits bool.splits option.splits)

lemma fill_acquire_counts:
  assumes "fill_acquire dtb w = (s', evs)" and "errors dtb = None"
  shows "sound s' \<and> posted (map Did evs) = pending (fst s')
       \<and> (posted (map Did evs) = 1 \<longrightarrow> snd s' = Stopped)"
proof -
  obtain r cmds where a: "acquireLock dtb w = (r, cmds)"
    by (cases "acquireLock dtb w")
  then have n: "posted (map Did cmds) = 0"
    using acquireLock_no_post [of dtb w] by simp
  show ?thesis
  proof (cases r)
    case (Inl err)
    then show ?thesis
      using assms a n by (auto simp: fill_acquire_def sound_def pending_def)
  next
    case (Inr res)
    then show ?thesis
      using assms a n
      by (cases res) (auto simp: fill_acquire_def sound_def pending_def)
  qed
qed

lemma fill_tick_counts:
  assumes "fill_tick dtb lockID w = (s', evs)" and "errors dtb = None"
  shows "sound s' \<and> posted (map Did evs) = pending (fst s')
       \<and> (posted (map Did evs) = 1 \<longrightarrow> snd s' = Stopped)"
proof (cases "llen w")
  case (Inl e)
  then show ?thesis
    using assms by (auto simp: fill_tick_def sound_def pending_def)
next
  case (Inr n)
  then show ?thesis
    using assms
    by (cases "lpush w") (auto simp: fill_tick_def sound_def pending_def split: if_splits)
qed

lemma step_counts:
  assumes "step s a = (s', obs)" and "sound s"
  shows "sound s' \<and> pending (fst s) + posted obs = observed obs + pending (fst s') \<and>
       posted obs \<le> (if snd s = Stopped then 0 else 1) \<and>
       (snd s = Stopped \<or> posted obs = 1 \<longrightarrow> snd s' = Stopped)"
proof (cases a)
  case (Iterate w)
  show ?thesis
  proof (cases "snd s")
    case Acquiring
    then have e: "errors (fst s) = None"
      using assms(2) by (simp add: sound_def)
    then have p: "pending (fst s) = 0"
      by (simp add: pending_def)
    obtain evs where f: "fill_acquire (fst s) w = (s', evs)" and o: "obs = map Did evs"
      using assms(1) Iterate Acquiring by (auto simp: fill_def split: prod.splits)
    have "pending (fst s') \<le> 1"
      by (simp add: pending_def split: option.splits)
    then show ?thesis
      using fill_acquire_counts [OF f e] p Acquiring o by simp
  next
    case (Active lockID)
    then have e: "errors (fst s) = None"
      using assms(2) by (simp add: sound_def)
    then have p: "pending (fst s) = 0"
      by (simp add: pending_def)
    obtain evs where f: "fill_tick (fst s) lockID w = (s', evs)" and o: "obs = map Did evs"
      using assms(1) Iterate Active by (auto simp: fill_def split: prod.splits)
    have "pending (fst s') \<le> 1"
      by (simp add: pending_def split: option.splits)
    then show ?thesis
      using fill_tick_counts [OF f e] p Active o by simp
  next
    case Stopped
    then show ?thesis
      using assms Iterate by (auto simp: fill_def)
  qed
next
  case (Call popped)
  show ?thesis
  proof (cases "errors (fst s)")
    case None
    then show ?thesis
      using assms Call
      by (cases popped) (auto simp: GetToken_def sound_def pending_def)
  next
    case (Some e)
    then show ?thesis
      using assms Call by (auto simp: GetToken_def sound_def pending_def)
  qed
qed

lemma run_counts:
  assumes "run s acts = (s', obs)" and "sound s"
  shows "sound s' \<and> pending (fst s) + posted obs = observed obs + pending (fst s') \<and>
       posted obs \<le> (if snd s = Stopped then 0 else 1) \<and>
       (snd s = Stopped \<or> posted obs = 1 \<longrightarrow> snd s' = Stopped)"
  using assms
proof (induction acts arbitrary: s s' obs)
  case Nil
  then show ?case by simp
next
  case (Cons a acts)
  obtain s1 obs1 where 1: "step s a = (s1, obs1)"
    by (cases "step s a")
  obtain s2 obs2 where 2: "run s1 acts = (s2, obs2)"
    by (cases "run s1 acts")
  have eq: "s' = s2" "obs = obs1 @ obs2"
    using Cons.prems(1) 1 2 by simp_all
  note st = step_counts [OF 1 Cons.prems(2)]
  from st have "sound s1" by simp
  note ih = Cons.IH [OF 2 this]
  show ?case
    using st ih eq by (auto split: if_splits)
qed

lemma sound_NewDTB: "sound (NewDTB name cap cad)"
  by (simp add: sound_def NewDTB_def)

text \<open>
  C6. In every course of a process from its construction, the filler sends at most one
  error, and once it has sent one it is stopped: its further iterations do nothing.
  Every error sent is either still waiting in the channel or was returned by one call
  of GetToken, never by two. A waiting error is returned by the next call, which
  empties the channel; after a call has returned the error, no later call returns an
  error and none is sent.
\<close>

theorem fault_signal_single_shot:
  assumes "run (NewDTB name cap cad) acts = (s, obs)"
  shows "posted obs \<le> 1
       \<and> (posted obs = 1 \<longrightarrow> snd s = Stopped \<and> (\<forall>w. fill s w = (s, [])))
       \<and> observed obs + pending (fst s) = posted obs
       \<and> (\<forall>e popped. errors (fst s) = Some e \<longrightarrow>
             GetToken (fst s) popped = ((Returned (Some e), (fst s)\<lparr>errors := None\<rparr>), []))
       \<and> (\<forall>more. observed obs = 1 \<longrightarrow>
             observed (snd (run s more)) = 0 \<and> posted (snd (run s more)) = 0)"
proof -
  note first = run_counts [OF assms sound_NewDTB]
  have p0: "pending (fst (NewDTB name cap cad)) = 0"
    by (simp add: pending_def NewDTB_def)
  have a: "posted obs \<le> 1"
    using first by (simp add: NewDTB_def)
  have b: "posted obs = 1 \<longrightarrow> snd s = Stopped \<and> (\<forall>w. fill s w = (s, []))"
    using first by (simp add: fill_def)
  have c: "observed obs + pending (fst s) = posted obs"
    using first p0 by simp
  have d: "\<forall>e popped. errors (fst s) = Some e \<longrightarrow>
             GetToken (fst s) popped = ((Returned (Some e), (fst s)\<lparr>errors := None\<rparr>), [])"
    by (simp add: GetToken_def)
  have e: "observed (snd (run s more)) = 0 \<and> posted (snd (run s more)) = 0"
    if seen: "observed obs = 1" for more
  proof -
    have "posted obs = 1" and "pending (fst s) = 0"
      using a c seen by simp_all
    then have stopped: "snd s = Stopped"
      using b by simp
    obtain s2 obs2 where r: "run s more = (s2, obs2)"
      by (cases "run s more")
    have "sound s" using first by simp
    from run_counts [OF r this] stopped \<open>pending (fst s) = 0\<close> show ?thesis
      by (simp add: r)
  qed
  have f: "\<forall>more. observed obs = 1 \<longrightarrow>
             observed (snd (run s more)) = 0 \<and> posted (snd (run s more)) = 0"
    using e by (intro allI impI)
  show ?thesis
    by (intro conjI) (rule a, rule b, rule c, rule d, rule f)
qed


text \<open>
  The README bucket, the store unreachable at the first iteration: the error is sent
  once, the first call of GetToken returns it, the second call pops a token and
  returns nil, and a further iteration of the filler does nothing.
\<close>

theorem fault_signal_single_shot_witness:
  "run (NewDTB ''my-token-bucket'' 1000 1000000000)
     [Iterate \<lparr>now = 1000500000000, setnx = Inl (Error ''dial tcp: connection refused''),
               get = Int64Val 0, getset = Int64Val 0,
               llen = Inr 0, lpush = Inr 1, set_status = Inr ''OK''\<rparr>,
      Call (Some (Inr [''my-token-bucket'', []])),
      Call (Some (Inr [''my-token-bucket'', []])),
      Iterate \<lparr>now = 1001500000000, setnx = Inr True,
               get = Int64Val 0, getset = Int64Val 0,
               llen = Inr 0, lpush = Inr 1, set_status = Inr ''OK''\<rparr>]
     = ((fst (NewDTB ''my-token-bucket'' 1000 1000000000), Stopped),
        [Did (Sleep 1000000000), Did (SetNX ''my-token-bucket_lock'' 1002 0),
         Did (Post (Error ''dial tcp: connection refused'')),
         Got (Returned (Some (Error ''dial tcp: connection refused''))),
         Did (BRPop 0 ''my-token-bucket''), Got (Returned None)])
   \<and> posted
        [Did (Sleep 1000000000), Did (SetNX ''my-token-bucket_lock'' 1002 0),
         Did (Post (Error ''dial tcp: connection refused'')),
         Got (Returned (Some (Error ''dial tcp: connection refused''))),
         Did (BRPop 0 ''my-token-bucket''), Got (Returned None)] = 1
   \<and> observed
        [Did (Sleep 1000000000), Did (SetNX ''my-token-bucket_lock'' 1002 0),
         Did (Post (Error ''dial tcp: connection refused'')),
         Got (Returned (Some (Error ''dial tcp: connection refused''))),
         Did (BRPop 0 ''my-token-bucket''), Got (Returned None)] = 1"
proof -
  have r: "run (NewDTB ''my-token-bucket'' 1000 1000000000)
     [Iterate \<lparr>now = 1000500000000, setnx = Inl (Error ''dial tcp: connection refused''),
               get = Int64Val 0, getset = Int64Val 0,
               llen = Inr 0, lpush = Inr 1, set_status = Inr ''OK''\<rparr>,
      Call (Some (Inr [''my-token-bucket'', []])),
      Call (Some (Inr [''my-token-bucket'', []])),
      Iterate \<lparr>now = 1001500000000, setnx = Inr True,
               get = Int64Val 0, getset = Int64Val 0,
               llen = Inr 0, lpush = Inr 1, set_status = Inr ''OK''\<rparr>]
     = ((fst (NewDTB ''my-token-bucket'' 1000 1000000000), Stopped),
        [Did (Sleep 1000000000), Did (SetNX ''my-token-bucket_lock'' 1002 0),
         Did (Post (Error ''dial tcp: connection refused'')),
         Got (Returned (Some (Error ''dial tcp: connection refused''))),
         Did (BRPop 0 ''my-token-bucket''), Got (Returned None)])"
    by (simp add: fill_def fill_acquire_def acquireLock_def Let_def GetToken_def NewDTB_def
          lockKey_def lockDuration_def time_Unix_def time_Add_def Second_def)
  show ?thesis
    using fault_signal_single_shot [OF r] r
    by simp
qed

subsection \<open>The configuration\<close>

lemma step_config: "config (fst (fst (step s a))) = config (fst s)"
proof (cases a)
  case (Iterate w)
  then show ?thesis
    by (cases "acquireLock (fst s) w")
       (auto simp: config_def fill_def fill_acquire_def fill_tick_def
             split: fill_pc.splits sum.splits option.splits prod.splits)
next
  case (Call popped)
  then show ?thesis
    by (auto simp: config_def GetToken_def split: option.splits prod.splits)
qed

lemma run_config: "config (fst (fst (run s acts))) = config (fst s)"
proof (induction acts arbitrary: s)
  case Nil
  then show ?case by simp
next
  case (Cons a acts)
  obtain s1 obs1 where 1: "step s a = (s1, obs1)"
    by (cases "step s a")
  have "config (fst (fst (run s1 acts))) = config (fst s1)"
    by (rule Cons.IH)
  moreover have "config (fst s1) = config (fst s)"
    using step_config [of s a] 1 by simp
  ultimately show ?case
    using 1 by (cases "run s1 acts") simp
qed

text \<open>
  C9. The name, the capacity and the cadence of a handle are those given to NewDTB,
  after any number of iterations of the filler and calls of GetToken, in any order.
  Each operation alone leaves them as they are: an iteration of fill (in its first
  loop this is the call of acquireLock, which only reads the handle) and a call of
  GetToken.
\<close>

theorem config_never_changes:
  "config (fst (fst (run (NewDTB name cap cad) acts))) = (name, cap, cad)
   \<and> config (fst (fst (fill (dtb, pc) w))) = config dtb
   \<and> config (snd (fst (GetToken dtb popped))) = config dtb"
proof -
  have "config (fst (fst (fill (dtb, pc) w))) = config dtb"
    using step_config [of "(dtb, pc)" "Iterate w"]
    by (cases "fill (dtb, pc) w") simp
  moreover have "config (snd (fst (GetToken dtb popped))) = config dtb"
    by (simp add: config_def GetToken_def split: option.splits)
  moreover have "config (fst (fst (run (NewDTB name cap cad) acts))) = (name, cap, cad)"
    using run_config [of "NewDTB name cap cad" acts] by (simp add: config_def NewDTB_def)
  ultimately show ?thesis by simp
qed

end
